theory Spec2Isabelle
  imports Complex_Main
begin

section \<open>Python strings\<close>

text \<open>
  A Python \<open>str\<close> is a sequence of code points, and a code point is a natural number.
  \<open>py\<close> gives the Python string of a literal. The character classes are the ones
  Python 3 uses: \<open>str.isspace\<close>, which is also what \<open>\s\<close> matches in a \<open>str\<close>
  pattern and what \<open>split()\<close> and \<open>strip()\<close> take for whitespace;
  \<open>str.isalnum\<close>; \<open>\w\<close>, which is \<open>isalnum\<close> or the underscore; and
  \<open>str.lower\<close>. For a code point below 256 (ASCII and the Latin-1 supplement) they
  are written out. Beyond, the program takes them from the Unicode tables of the
  interpreter, which are not part of it: they are the parameter \<open>u\<close> of every
  function that uses them. The lowercase of a character can be several characters, and
  can depend on the characters before and after it (the final sigma), so the table
  \<open>ucd_lower\<close> takes them too.
\<close>

type_synonym pystr = "nat list"

definition py :: "string \<Rightarrow> pystr" where
  "py s = map of_char s"

record ucd =
  ucd_isspace :: "nat \<Rightarrow> bool"
  ucd_isalnum :: "nat \<Rightarrow> bool"
  ucd_lower :: "pystr \<Rightarrow> nat \<Rightarrow> pystr \<Rightarrow> pystr"

definition isspace :: "ucd \<Rightarrow> nat \<Rightarrow> bool" where
  "isspace u n =
     (if n < 256
      then (9 \<le> n \<and> n \<le> 13) \<or> (28 \<le> n \<and> n \<le> 32) \<or> n = 133 \<or> n = 160
      else ucd_isspace u n)"

definition isalnum :: "ucd \<Rightarrow> nat \<Rightarrow> bool" where
  "isalnum u n =
     (if n < 256
      then (48 \<le> n \<and> n \<le> 57) \<or> (65 \<le> n \<and> n \<le> 90) \<or> (97 \<le> n \<and> n \<le> 122)
         \<or> n = 170 \<or> n = 178 \<or> n = 179 \<or> n = 181 \<or> n = 185 \<or> n = 186
         \<or> (188 \<le> n \<and> n \<le> 190) \<or> (192 \<le> n \<and> n \<le> 214)
         \<or> (216 \<le> n \<and> n \<le> 246) \<or> (248 \<le> n \<and> n \<le> 255)
      else ucd_isalnum u n)"

definition isword :: "ucd \<Rightarrow> nat \<Rightarrow> bool" where
  \<comment> \<open>the class \<open>\w\<close>\<close>
  "isword u n = (isalnum u n \<or> n = of_char CHR ''_'')"

definition isupper :: "nat \<Rightarrow> bool" where
  \<comment> \<open>the code points below 256 that \<open>str.lower\<close> changes\<close>
  "isupper n = ((65 \<le> n \<and> n \<le> 90) \<or> (192 \<le> n \<and> n \<le> 214) \<or> (216 \<le> n \<and> n \<le> 222))"

definition lower_latin1 :: "nat \<Rightarrow> nat" where
  "lower_latin1 n = (if isupper n then n + 32 else n)"

text \<open>
  \<open>s.lower()\<close>, from the character after \<open>left\<close> on.
\<close>

fun lower_from :: "ucd \<Rightarrow> pystr \<Rightarrow> pystr \<Rightarrow> pystr" where
  "lower_from u left [] = []"
| "lower_from u left (c # right) =
     (if c < 256 then [lower_latin1 c] else ucd_lower u left c right)
     @ lower_from u (left @ [c]) right"

definition lower :: "ucd \<Rightarrow> pystr \<Rightarrow> pystr" where
  "lower u s = lower_from u [] s"

definition strip :: "ucd \<Rightarrow> pystr \<Rightarrow> pystr" where
  "strip u s = rev (dropWhile (isspace u) (rev (dropWhile (isspace u) s)))"

text \<open>
  \<open>text.split()\<close>: the maximal runs of non-whitespace characters, in order. The
  argument \<open>w\<close> is the word being read.
\<close>

fun split_from :: "ucd \<Rightarrow> pystr \<Rightarrow> pystr \<Rightarrow> pystr list" where
  "split_from u w [] = (if w = [] then [] else [w])"
| "split_from u w (c # cs) =
     (if isspace u c then (if w = [] then split_from u [] cs else w # split_from u [] cs)
      else split_from u (w @ [c]) cs)"

definition split :: "ucd \<Rightarrow> pystr \<Rightarrow> pystr list" where
  "split u s = split_from u [] s"

text \<open>\<open>sep.join(words)\<close>\<close>

fun join :: "pystr \<Rightarrow> pystr list \<Rightarrow> pystr" where
  "join sep [] = []"
| "join sep [w] = w"
| "join sep (w # ws) = w @ sep @ join sep ws"

section \<open>The text cleaner\<close>

text \<open>
  \<open>re.sub(r'\s+', ' ', text)\<close>: every maximal run of whitespace becomes one space.
\<close>

function sub_whitespace_runs :: "ucd \<Rightarrow> pystr \<Rightarrow> pystr" where
  "sub_whitespace_runs u [] = []"
| "sub_whitespace_runs u (c # cs) =
     (if isspace u c then of_char CHR '' '' # sub_whitespace_runs u (dropWhile (isspace u) cs)
      else c # sub_whitespace_runs u cs)"
  by pat_completeness auto
termination
  by (relation "measure (\<lambda>(u, s). length s)")
     (auto simp: less_Suc_eq_le length_dropWhile_le)

text \<open>
  \<open>re.sub(r'[^\w\s\.\,\?\!]', ' ', text)\<close>: every character outside the class
  becomes a space.
\<close>

definition kept :: "ucd \<Rightarrow> nat \<Rightarrow> bool" where
  "kept u c =
     (isword u c \<or> isspace u c \<or> c = of_char CHR ''.'' \<or> c = of_char CHR '',''
      \<or> c = of_char CHR ''?'' \<or> c = of_char CHR ''!'')"

definition sub_special :: "ucd \<Rightarrow> pystr \<Rightarrow> pystr" where
  "sub_special u s = map (\<lambda>c. if kept u c then c else of_char CHR '' '') s"

text \<open>
  A cell of the data frame, as \<open>pd.read_csv\<close> gives it: a string; missing
  (\<open>NaN\<close>, for which \<open>pd.isna\<close> holds); or, in a column that holds only numbers
  or only truth values, a number or a truth value. \<open>re.sub\<close> raises
  \<open>TypeError\<close> on the last two.
\<close>

datatype cell = Text pystr | Missing | Number real | Boolean bool

datatype error = ReadError string | KeyError string | TypeError

definition clean :: "ucd \<Rightarrow> cell \<Rightarrow> error + pystr" where
  "clean u text =
     (case text of
        Missing \<Rightarrow> Inr []
      | Text t \<Rightarrow> Inr (strip u (lower u (sub_special u (sub_whitespace_runs u t))))
      | Number x \<Rightarrow> Inl TypeError
      | Boolean b \<Rightarrow> Inl TypeError)"

section \<open>The chunker\<close>

definition chunk_size :: nat where
  "chunk_size = 500"

definition overlap :: nat where
  "overlap = 50"

text \<open>
  The loop \<open>for i in range(0, len(words), chunk_size - overlap)\<close>, from the index
  \<open>i\<close> on: each round appends \<open>' '.join(words[i:i + chunk_size])\<close>.
\<close>

function chunks_from :: "nat \<Rightarrow> pystr list \<Rightarrow> pystr list" where
  "chunks_from i words =
     (if i < length words
      then join (py '' '') (take chunk_size (drop i words))
             # chunks_from (i + (chunk_size - overlap)) words
      else [])"
  by pat_completeness auto
termination
  by (relation "measure (\<lambda>(i, words). length words - i)")
     (auto simp: chunk_size_def overlap_def)

declare chunks_from.simps [simp del]

definition chunking :: "ucd \<Rightarrow> pystr \<Rightarrow> pystr list" where
  "chunking u text = chunks_from 0 (split u text)"

section \<open>The dataset preprocessor\<close>

text \<open>
  A row of the data frame maps a column name to its cell; \<open>row['Context']\<close> raises
  \<open>KeyError\<close> when the column is absent. \<open>pd.read_csv\<close> is outside the program:
  its outcome, the rows or the exception it raised, is the argument of \<open>preprocess\<close>.
\<close>

type_synonym row = "string \<rightharpoonup> cell"

definition getitem :: "row \<Rightarrow> string \<Rightarrow> error + cell" where
  "getitem row k = (case row k of None \<Rightarrow> Inl (KeyError k) | Some v \<Rightarrow> Inr v)"

text \<open>
  The dictionary under the key \<open>'metadata'\<close>; its key \<open>'response'\<close> is the field
  \<open>md_response\<close>, since the document has a key \<open>'response'\<close> of its own. The
  document's key \<open>'context'\<close> is the field \<open>doc_context\<close>.
\<close>

record meta =
  original_context :: cell
  md_response :: nat

record document =
  doc_context :: pystr
  response :: pystr
  data :: pystr
  metadata :: meta

text \<open>The f-string \<open>f"Question: {context}\nAnswer: {response}"\<close>.\<close>

definition format_data :: "pystr \<Rightarrow> pystr \<Rightarrow> pystr" where
  "format_data c r = py ''Question: '' @ c @ py ''\<newline>Answer: '' @ r"

text \<open>The inner loop \<open>for chunk in chunks\<close>, appending to \<open>documents\<close>.\<close>

fun append_chunks :: "document list \<Rightarrow> pystr \<Rightarrow> pystr \<Rightarrow> cell \<Rightarrow> pystr list \<Rightarrow> document list" where
  "append_chunks documents c r orig [] = documents"
| "append_chunks documents c r orig (chunk # chunks) =
     append_chunks
       (documents @
         [\<lparr>doc_context = c, response = r, data = chunk,
           metadata = \<lparr>original_context = orig, md_response = length documents\<rparr>\<rparr>])
       c r orig chunks"

text \<open>
  The body of the loop over the rows. The cells are read and cleaned in the order of the
  source, so the first failure is the one that is raised.
\<close>

definition process_row :: "ucd \<Rightarrow> document list \<Rightarrow> row \<Rightarrow> error + document list" where
  "process_row u documents row =
     (case getitem row ''Context'' of
        Inl e \<Rightarrow> Inl e
      | Inr rc \<Rightarrow>
     (case clean u rc of
        Inl e \<Rightarrow> Inl e
      | Inr c \<Rightarrow>
     (case getitem row ''Response'' of
        Inl e \<Rightarrow> Inl e
      | Inr rr \<Rightarrow>
     (case clean u rr of
        Inl e \<Rightarrow> Inl e
      | Inr r \<Rightarrow>
          Inr (append_chunks documents c r rc (chunking u (format_data c r)))))))"

fun preprocess_rows :: "ucd \<Rightarrow> document list \<Rightarrow> row list \<Rightarrow> error + document list" where
  "preprocess_rows u documents [] = Inr documents"
| "preprocess_rows u documents (row # rows) =
     (case process_row u documents row of
        Inl e \<Rightarrow> Inl e
      | Inr documents' \<Rightarrow> preprocess_rows u documents' rows)"

definition preprocess :: "ucd \<Rightarrow> error + row list \<Rightarrow> error + document list" where
  "preprocess u read_csv =
     (case read_csv of Inl e \<Rightarrow> Inl e | Inr df \<Rightarrow> preprocess_rows u [] df)"

section \<open>The HTTP service\<close>

text \<open>
  The values of a response dictionary. A float that is \<open>nan\<close> or infinite is a
  value of its own: JSON has no text for it.
\<close>

datatype json =
    JNull | JBool bool | JStr string | JInt int | JFloat real | JNaN | JInfinity
  | JList "json list" | JObj "(string \<times> json) list"

text \<open>
  A retrieved document: \<open>None\<close> is an object without the attribute, for which
  \<open>hasattr\<close> is false. The attribute \<open>metadata\<close> is the field \<open>lc_metadata\<close>.
\<close>

record source_document =
  page_content :: "json option"
  lc_metadata :: "json option"

text \<open>
  The dictionary that \<open>invoke\<close> returns: \<open>None\<close> is an absent key. An exception
  carries its text, \<open>str(e)\<close>; only instances of \<open>Exception\<close> are modelled, the
  ones \<open>except Exception\<close> catches.
\<close>

record chain_result =
  result :: "json option"
  source_documents :: "source_document list option"

datatype exn = Exception string

type_synonym chain = "string \<Rightarrow> exn + chain_result"

record Question =
  query :: string

record http_response =
  status_code :: nat
  body :: json

text \<open>
  What a request does besides answering: the queries passed to \<open>invoke\<close> and the lines
  written to the error log, in order.
\<close>

record effects =
  invoked :: "string list"
  logged :: "string list"

text \<open>\<open>HTTPException(status_code, detail)\<close> as the framework renders it.\<close>

definition HTTPException :: "nat \<Rightarrow> string \<Rightarrow> http_response" where
  "HTTPException s d = \<lparr>status_code = s, body = JObj [(''detail'', JStr d)]\<rparr>"

definition source_of :: "source_document \<Rightarrow> json" where
  "source_of doc =
     JObj [(''content'', case page_content doc of None \<Rightarrow> JNull | Some v \<Rightarrow> v),
           (''metadata'', case lc_metadata doc of None \<Rightarrow> JNull | Some v \<Rightarrow> v)]"

definition sources_of :: "chain_result \<Rightarrow> json list" where
  "sources_of r = (case source_documents r of None \<Rightarrow> [] | Some docs \<Rightarrow> map source_of docs)"

definition name_error :: exn where
  "name_error = Exception ''name 'retrieval_chain' is not defined''"

text \<open>
  The handler of \<open>POST /chat\<close>. The first argument is the global \<open>retrieval_chain\<close>:
  \<open>None\<close> before startup has set it, when reading it raises \<open>NameError\<close> inside
  the \<open>try\<close>. The result is the answer the handler asks for: the one of the
  \<open>HTTPException\<close> it raises, or the status 200 with the dictionary it returns.
\<close>

definition chat_endpoint :: "chain option \<Rightarrow> Question \<Rightarrow> http_response \<times> effects" where
  "chat_endpoint retrieval_chain question =
     (case (case retrieval_chain of
              None \<Rightarrow> (Inl name_error, [])
            | Some invoke \<Rightarrow> (invoke (query question), [query question])) of
        (Inl (Exception e), calls) \<Rightarrow>
          (HTTPException 500 ''Error processing your question'',
           \<lparr>invoked = calls, logged = [''Error processing question: '' @ e]\<rparr>)
      | (Inr r, calls) \<Rightarrow>
          (\<lparr>status_code = 200,
            body = JObj [(''response'',
                          case result r of
                            None \<Rightarrow> JStr ''No response generated''
                          | Some v \<Rightarrow> v),
                         (''sources'', JList (sources_of r))]\<rparr>,
           \<lparr>invoked = calls, logged = []\<rparr>))"

text \<open>
  What the framework sends for the handler's answer. It writes the body as JSON after the
  handler has returned, outside its \<open>try\<close>, and refuses \<open>nan\<close> and the
  infinities; the failure is answered with the plain text \<open>Internal Server Error\<close>
  and the status 500.
\<close>

fun serialisable :: "json \<Rightarrow> bool" where
  "serialisable JNaN = False"
| "serialisable JInfinity = False"
| "serialisable (JList vs) = list_all serialisable vs"
| "serialisable (JObj kvs) = list_all serialisable (map snd kvs)"
| "serialisable _ = True"

datatype answer = Sent http_response | InternalServerError

definition answer_status :: "answer \<Rightarrow> nat" where
  "answer_status a = (case a of Sent r \<Rightarrow> status_code r | InternalServerError \<Rightarrow> 500)"

definition post_chat :: "chain option \<Rightarrow> Question \<Rightarrow> answer \<times> effects" where
  "post_chat retrieval_chain question =
     (case chat_endpoint retrieval_chain question of
        (r, eff) \<Rightarrow> (if serialisable (body r) then Sent r else InternalServerError, eff))"

section \<open>Vocabulary of the properties\<close>

text \<open>A status code of the class 4xx.\<close>

definition client_error :: "nat \<Rightarrow> bool" where
  "client_error s = (400 \<le> s \<and> s < 500)"

text \<open>The value under a key of a JSON object.\<close>

fun member :: "json \<Rightarrow> string \<Rightarrow> json option" where
  "member (JObj kvs) k = map_of kvs k"
| "member _ k = None"

text \<open>A chain result with neither key.\<close>

definition empty_result :: chain_result where
  "empty_result = \<lparr>result = None, source_documents = None\<rparr>"

text \<open>
  Unicode tables with a few of Python's entries: the em space U+2003 is whitespace; the
  Cyrillic letters U+0410 to U+044F are alphanumeric, and the first 32 of them are the
  capitals of the last 32; U+0130, the capital I with a dot above, is alphanumeric and
  its lowercase is \<open>i\<close> followed by the combining dot U+0307.
\<close>

definition sample_ucd :: ucd where
  "sample_ucd =
     \<lparr>ucd_isspace = (\<lambda>n. n = 0x2003),
      ucd_isalnum = (\<lambda>n. (0x410 \<le> n \<and> n \<le> 0x44F) \<or> n = 0x130),
      ucd_lower = (\<lambda>left c right.
         if 0x410 \<le> c \<and> c \<le> 0x42F then [c + 32]
         else if c = 0x130 then [0x69, 0x307]
         else [c])\<rparr>"

text \<open>
  What the tables must satisfy for the property of the cleaner's characters: the
  lowercase of an alphanumeric character beyond U+00FF, other than U+0130, is made of
  alphanumeric characters.
\<close>

definition lower_keeps_alnum :: "ucd \<Rightarrow> bool" where
  "lower_keeps_alnum u =
     (\<forall>left c right. 256 \<le> c \<longrightarrow> c \<noteq> 0x130 \<longrightarrow> ucd_isalnum u c \<longrightarrow>
        (\<forall>d \<in> set (ucd_lower u left c right). isalnum u d))"

text \<open>
  The row of the end-to-end scenario, a row whose context is missing, a row whose
  context is a number, and the documents of the data frame made of the first two rows.
\<close>

definition anxious_row :: row where
  "anxious_row =
     [''Context'' \<mapsto> Text (py ''I feel anxious''),
      ''Response'' \<mapsto> Text (py ''That's understandable, let's talk about it'')]"

definition missing_context_row :: row where
  "missing_context_row =
     [''Context'' \<mapsto> Missing, ''Response'' \<mapsto> Text (py ''Take a   walk!'')]"

definition number_row :: row where
  "number_row = [''Context'' \<mapsto> Number 7, ''Response'' \<mapsto> Text (py ''Seven'')]"

definition two_row_documents :: "document list" where
  "two_row_documents =
     [\<lparr>doc_context = py ''i feel anxious'',
       response = py ''that s understandable, let s talk about it'',
       data = py ''Question: i feel anxious Answer: that s understandable, let s talk about it'',
       metadata = \<lparr>original_context = Text (py ''I feel anxious''), md_response = 0\<rparr>\<rparr>,
      \<lparr>doc_context = [],
       response = py ''take a walk!'',
       data = py ''Question: Answer: take a walk!'',
       metadata = \<lparr>original_context = Missing, md_response = 1\<rparr>\<rparr>]"

text \<open>
  The characters the specification allows in cleaned text: alphanumeric, whitespace, or
  one of \<open>. , ? !\<close>.
\<close>

definition spec_allowed :: "ucd \<Rightarrow> nat \<Rightarrow> bool" where
  "spec_allowed u c =
     (isalnum u c \<or> isspace u c \<or> c = of_char CHR ''.'' \<or> c = of_char CHR '',''
      \<or> c = of_char CHR ''?'' \<or> c = of_char CHR ''!'')"

text \<open>A string with two whitespace characters in a row.\<close>

fun has_whitespace_run :: "ucd \<Rightarrow> pystr \<Rightarrow> bool" where
  "has_whitespace_run u (a # b # cs) =
     ((isspace u a \<and> isspace u b) \<or> has_whitespace_run u (b # cs))"
| "has_whitespace_run u _ = False"

text \<open>
  The number of chunks the specification gives for a text of \<open>wordCount\<close> words:
  \<open>ceil((wordCount - O) / (W - O))\<close> when \<open>wordCount > W\<close>, else 1, with
  \<open>W = 500\<close> and \<open>O = 50\<close>.
\<close>

definition spec_chunk_count :: "nat \<Rightarrow> int" where
  "spec_chunk_count wordCount =
     (if wordCount > 500 then \<lceil>(real wordCount - 50) / 450\<rceil> else 1)"

text \<open>A text of \<open>n\<close> words.\<close>

definition repeated_word :: "nat \<Rightarrow> pystr" where
  "repeated_word n = concat (replicate n (py ''a ''))"

text \<open>A cell that is text or missing.\<close>

definition text_or_missing :: "cell \<Rightarrow> bool" where
  "text_or_missing x = (case x of Text t \<Rightarrow> True | Missing \<Rightarrow> True | _ \<Rightarrow> False)"

text \<open>
  The documents that the loop body appends for a row with the context cell \<open>rc\<close>,
  cleaned to \<open>c\<close>, and the cleaned response \<open>r\<close>, when \<open>n\<close> documents exist
  already; and what it is for a list of documents to be the ones of a row: their chunks
  are the chunks of the row's text, in order, and each carries the row's own context
  cell.
\<close>

definition row_documents :: "ucd \<Rightarrow> nat \<Rightarrow> cell \<Rightarrow> pystr \<Rightarrow> pystr \<Rightarrow> document list" where
  "row_documents u n rc c r =
     map (\<lambda>(k, chunk).
            \<lparr>doc_context = c, response = r, data = chunk,
             metadata = \<lparr>original_context = rc, md_response = k\<rparr>\<rparr>)
         (enumerate n (chunking u (format_data c r)))"

definition emitted_for :: "ucd \<Rightarrow> row \<Rightarrow> document list \<Rightarrow> bool" where
  "emitted_for u row g =
     (case (row ''Context'', row ''Response'') of
        (Some rc, Some rr) \<Rightarrow>
          (case (clean u rc, clean u rr) of
             (Inr c, Inr r) \<Rightarrow>
               map data g = chunking u (format_data c r)
               \<and> list_all (\<lambda>d. original_context (metadata d) = rc) g
           | _ \<Rightarrow> False)
      | _ \<Rightarrow> False)"

section \<open>Evaluation\<close>

lemmas char_classes =
  isspace_def isalnum_def isword_def isupper_def kept_def lower_latin1_def

lemmas clean_eval =
  clean_def strip_def lower_def sub_special_def py_def char_classes

lemmas preprocess_eval =
  preprocess_def process_row_def getitem_def format_data_def chunking_def split_def
  chunks_from.simps chunk_size_def overlap_def py_def

lemma clean_Missing: "clean u Missing = Inr []"
  by (simp add: clean_def)

lemma clean_anxious_context:
  "clean u (Text (py ''I feel anxious'')) = Inr (py ''i feel anxious'')"
  by (simp add: clean_eval)

lemma clean_anxious_response:
  "clean u (Text (py ''That's understandable, let's talk about it''))
     = Inr (py ''that s understandable, let s talk about it'')"
  by (simp add: clean_eval)

lemma clean_walk: "clean u (Text (py ''Take a   walk!'')) = Inr (py ''take a walk!'')"
  by (simp add: clean_eval)

lemma clean_underscore: "clean u (Text (py ''a_b'')) = Inr (py ''a_b'')"
  by (simp add: clean_eval)

lemma clean_ampersand: "clean u (Text (py ''rock & roll'')) = Inr (py ''rock   roll'')"
  by (simp add: clean_eval)

lemma clean_cyrillic:
  "clean sample_ucd (Text ([0x41F, 0x440, 0x2003, 0x2003, 0x2014] @ py ''Hi!''))
     = Inr ([0x43F, 0x440] @ py ''  hi!'')"
  by (simp add: clean_eval sample_ucd_def)

lemma clean_dotted_capital_I: "clean sample_ucd (Text [0x130]) = Inr [0x69, 0x307]"
  by (simp add: clean_eval sample_ucd_def)

lemma preprocess_two_rows:
  "preprocess u (Inr [anxious_row, missing_context_row]) = Inr two_row_documents"
  by (simp add: preprocess_eval anxious_row_def missing_context_row_def two_row_documents_def
        clean_anxious_context [unfolded py_def, simplified]
        clean_anxious_response [unfolded py_def, simplified]
        clean_walk [unfolded py_def, simplified] clean_Missing isspace_def)

section \<open>The HTTP service: properties\<close>

text \<open>
  C1, as stated: a request whose query is the empty string gets a 4xx answer and
  \<open>invoke\<close> is not called. The handler has no test on the query: with a chain that
  returns, the empty query is passed to \<open>invoke\<close> and the answer is 200.
\<close>

theorem empty_query_counterexample:
  "\<not> (client_error
        (status_code (fst (chat_endpoint (Some (\<lambda>q. Inr empty_result)) \<lparr>query = []\<rparr>)))
      \<and> invoked (snd (chat_endpoint (Some (\<lambda>q. Inr empty_result)) \<lparr>query = []\<rparr>)) = [])
   \<and> post_chat (Some (\<lambda>q. Inr empty_result)) \<lparr>query = []\<rparr>
       = (Sent \<lparr>status_code = 200,
                body = JObj [(''response'', JStr ''No response generated''),
                             (''sources'', JList [])]\<rparr>,
          \<lparr>invoked = [[]], logged = []\<rparr>)"
  by (simp add: post_chat_def chat_endpoint_def client_error_def empty_result_def
        sources_of_def)

text \<open>
  C1, amended: a request whose query is the empty string is passed to the chain as any
  other. The handler calls \<open>invoke\<close> once, with the empty query, and the answer
  sent is never of the class 4xx.
\<close>

theorem empty_query_is_invoked:
  "invoked (snd (post_chat (Some invoke) \<lparr>query = []\<rparr>)) = [[]]
   \<and> \<not> client_error (answer_status (fst (post_chat (Some invoke) \<lparr>query = []\<rparr>)))"
  by (cases "invoke []")
     (auto simp: post_chat_def chat_endpoint_def client_error_def HTTPException_def
        answer_status_def split: exn.splits)

text \<open>
  C2: when \<open>invoke\<close> raises, the answer is the status 500 with the body
  \<open>{"detail": "Error processing your question"}\<close>. The answer is this one value
  whatever the exception is, so the text of the exception has no part in the body; it
  is written to the log only. The body can be written as JSON, so this is the answer
  that is sent.
\<close>

theorem invoke_raises_generic_500:
  "invoke (query q) = Inl (Exception e) \<Longrightarrow>
     fst (chat_endpoint (Some invoke) q) =
       \<lparr>status_code = 500,
        body = JObj [(''detail'', JStr ''Error processing your question'')]\<rparr>
     \<and> logged (snd (chat_endpoint (Some invoke) q)) = [''Error processing question: '' @ e]
     \<and> post_chat (Some invoke) q =
         (Sent \<lparr>status_code = 500,
                 body = JObj [(''detail'', JStr ''Error processing your question'')]\<rparr>,
          \<lparr>invoked = [query q], logged = [''Error processing question: '' @ e]\<rparr>)"
  by (simp add: post_chat_def chat_endpoint_def HTTPException_def)

theorem invoke_raises_generic_500_witness:
  "(\<lambda>q. Inl (Exception ''connection refused'')) (query \<lparr>query = ''I feel anxious''\<rparr>)
      = (Inl (Exception ''connection refused'') :: exn + chain_result)
   \<and> fst (chat_endpoint (Some (\<lambda>q. Inl (Exception ''connection refused'')))
            \<lparr>query = ''I feel anxious''\<rparr>) =
       \<lparr>status_code = 500,
        body = JObj [(''detail'', JStr ''Error processing your question'')]\<rparr>
   \<and> logged (snd (chat_endpoint (Some (\<lambda>q. Inl (Exception ''connection refused'')))
                  \<lparr>query = ''I feel anxious''\<rparr>))
       = [''Error processing question: connection refused'']
   \<and> post_chat (Some (\<lambda>q. Inl (Exception ''connection refused'')))
        \<lparr>query = ''I feel anxious''\<rparr> =
         (Sent \<lparr>status_code = 500,
                 body = JObj [(''detail'', JStr ''Error processing your question'')]\<rparr>,
          \<lparr>invoked = [''I feel anxious''],
           logged = [''Error processing question: connection refused'']\<rparr>)"
  using invoke_raises_generic_500
    [of "\<lambda>q. Inl (Exception ''connection refused'')" "\<lparr>query = ''I feel anxious''\<rparr>"
        "''connection refused''"]
  by simp

text \<open>
  C10: when \<open>invoke\<close> returns, the handler's answer is 200 and its body has the keys
  \<open>"response"\<close> and \<open>"sources"\<close>; \<open>"response"\<close> is the string
  \<open>'No response generated'\<close> when the result has no key \<open>'result'\<close>, and
  \<open>"sources"\<close> is the empty list when it has no key \<open>'source_documents'\<close>.
  Whenever the answer sent has the status 200, it is the handler's answer, with that
  body.
\<close>

theorem success_body_has_response_and_sources:
  "invoke (query q) = Inr r \<Longrightarrow>
     status_code (fst (chat_endpoint (Some invoke) q)) = 200
     \<and> (\<exists>v. member (body (fst (chat_endpoint (Some invoke) q))) ''response'' = Some v)
     \<and> (\<exists>vs. member (body (fst (chat_endpoint (Some invoke) q))) ''sources''
               = Some (JList vs))
     \<and> (result r = None \<longrightarrow>
          member (body (fst (chat_endpoint (Some invoke) q))) ''response''
            = Some (JStr ''No response generated''))
     \<and> (source_documents r = None \<longrightarrow>
          member (body (fst (chat_endpoint (Some invoke) q))) ''sources'' = Some (JList []))
     \<and> (answer_status (fst (post_chat (Some invoke) q)) = 200 \<longrightarrow>
          fst (post_chat (Some invoke) q) = Sent (fst (chat_endpoint (Some invoke) q)))"
  by (simp add: post_chat_def answer_status_def chat_endpoint_def sources_of_def)

theorem success_body_has_response_and_sources_witness:
  "status_code (fst (chat_endpoint (Some (\<lambda>q. Inr empty_result))
                      \<lparr>query = ''I feel anxious''\<rparr>)) = 200
   \<and> member (body (fst (chat_endpoint (Some (\<lambda>q. Inr empty_result))
                          \<lparr>query = ''I feel anxious''\<rparr>))) ''response''
       = Some (JStr ''No response generated'')
   \<and> member (body (fst (chat_endpoint (Some (\<lambda>q. Inr empty_result))
                          \<lparr>query = ''I feel anxious''\<rparr>))) ''sources''
       = Some (JList [])
   \<and> answer_status (fst (post_chat (Some (\<lambda>q. Inr empty_result))
                            \<lparr>query = ''I feel anxious''\<rparr>)) = 200
   \<and> fst (post_chat (Some (\<lambda>q. Inr empty_result)) \<lparr>query = ''I feel anxious''\<rparr>)
       = Sent (fst (chat_endpoint (Some (\<lambda>q. Inr empty_result))
                      \<lparr>query = ''I feel anxious''\<rparr>))"
proof -
  have "answer_status (fst (post_chat (Some (\<lambda>q. Inr empty_result))
                              \<lparr>query = ''I feel anxious''\<rparr>)) = 200"
    by (simp add: post_chat_def answer_status_def chat_endpoint_def sources_of_def
          empty_result_def)
  with success_body_has_response_and_sources
    [of "\<lambda>q. Inr empty_result" "\<lparr>query = ''I feel anxious''\<rparr>" empty_result]
  show ?thesis by (simp add: empty_result_def)
qed

text \<open>
  A result that cannot be written as JSON: the metadata of a retrieved document holds
  \<open>nan\<close>. The handler returns its dictionary, with the status 200, and the answer
  sent is the framework's own 500.
\<close>

lemma nan_metadata_internal_server_error:
  "fst (chat_endpoint
          (Some (\<lambda>q. Inr \<lparr>result = Some (JStr ''ok''),
                          source_documents =
                            Some [\<lparr>page_content = Some (JStr ''text''),
                                   lc_metadata = Some (JObj [(''score'', JNaN)])\<rparr>]\<rparr>))
          \<lparr>query = []\<rparr>)
     = \<lparr>status_code = 200,
        body = JObj [(''response'', JStr ''ok''),
                     (''sources'',
                      JList [JObj [(''content'', JStr ''text''),
                                   (''metadata'', JObj [(''score'', JNaN)])]])]\<rparr>
   \<and> fst (post_chat
          (Some (\<lambda>q. Inr \<lparr>result = Some (JStr ''ok''),
                          source_documents =
                            Some [\<lparr>page_content = Some (JStr ''text''),
                                   lc_metadata = Some (JObj [(''score'', JNaN)])\<rparr>]\<rparr>))
          \<lparr>query = []\<rparr>)
     = InternalServerError"
  by (simp add: post_chat_def chat_endpoint_def sources_of_def source_of_def)

section \<open>The end-to-end scenario\<close>

text \<open>
  C3, as stated: for the row with the context \<open>I feel anxious\<close> and the response
  \<open>That's understandable, let's talk about it\<close>, the combined cleaned text is all
  lowercase and keeps the apostrophes. It is not: the labels \<open>Question:\<close> and
  \<open>Answer:\<close> are added after cleaning and keep their capitals, and the cleaner
  turns each apostrophe into a space.
\<close>

theorem anxious_text_counterexample:
  "clean sample_ucd (Text (py ''I feel anxious'')) = Inr (py ''i feel anxious'')
   \<and> clean sample_ucd (Text (py ''That's understandable, let's talk about it''))
       = Inr (py ''that s understandable, let s talk about it'')
   \<and> format_data (py ''i feel anxious'') (py ''that s understandable, let s talk about it'')
       \<noteq> py ''question: i feel anxious\<newline>answer: that's understandable, let's talk about it''"
  by (simp add: clean_anxious_context clean_anxious_response) (simp add: format_data_def py_def)

text \<open>
  C3, amended: the combined text is
  \<open>Question: i feel anxious\nAnswer: that s understandable, let s talk about it\<close>,
  and the row yields exactly one document, whose chunk is that text with the line break
  turned into a space.
\<close>

theorem anxious_row_one_document:
  "clean u (Text (py ''I feel anxious'')) = Inr (py ''i feel anxious'')
   \<and> clean u (Text (py ''That's understandable, let's talk about it''))
       = Inr (py ''that s understandable, let s talk about it'')
   \<and> format_data (py ''i feel anxious'') (py ''that s understandable, let s talk about it'')
       = py ''Question: i feel anxious\<newline>Answer: that s understandable, let s talk about it''
   \<and> preprocess u (Inr [anxious_row]) =
       Inr [\<lparr>doc_context = py ''i feel anxious'',
             response = py ''that s understandable, let s talk about it'',
             data = py ''Question: i feel anxious Answer: that s understandable, let s talk about it'',
             metadata = \<lparr>original_context = Text (py ''I feel anxious''),
                         md_response = 0\<rparr>\<rparr>]"
proof -
  have "preprocess u (Inr [anxious_row]) =
       Inr [\<lparr>doc_context = py ''i feel anxious'',
             response = py ''that s understandable, let s talk about it'',
             data = py ''Question: i feel anxious Answer: that s understandable, let s talk about it'',
             metadata = \<lparr>original_context = Text (py ''I feel anxious''),
                         md_response = 0\<rparr>\<rparr>]"
    by (simp add: preprocess_eval anxious_row_def
          clean_anxious_context [unfolded py_def, simplified]
          clean_anxious_response [unfolded py_def, simplified] isspace_def)
  moreover have "format_data (py ''i feel anxious'')
                   (py ''that s understandable, let s talk about it'')
       = py ''Question: i feel anxious\<newline>Answer: that s understandable, let s talk about it''"
    by (simp add: format_data_def py_def)
  ultimately show ?thesis
    by (simp only: clean_anxious_context clean_anxious_response simp_thms)
qed

section \<open>The text cleaner: properties\<close>

lemma isspace_32: "isspace u 32"
  by (simp add: isspace_def)

lemma lower_latin1_32: "lower_latin1 32 = 32"
  by (simp add: lower_latin1_def isupper_def)

lemma lower_latin1_less: "n < 256 \<Longrightarrow> lower_latin1 n < 256"
  by (auto simp: lower_latin1_def isupper_def)

lemma lower_latin1_same: "\<not> isupper n \<Longrightarrow> lower_latin1 n = n"
  by (simp add: lower_latin1_def)

lemma isalnum_lower_latin1: "isupper n \<Longrightarrow> isalnum u (lower_latin1 n)"
  by (auto simp: lower_latin1_def isupper_def isalnum_def)

lemma not_isupper_lower_latin1: "\<not> isupper (lower_latin1 n)"
  by (auto simp: lower_latin1_def isupper_def)

lemma isspace_lower_latin1: "n < 256 \<Longrightarrow> isspace u (lower_latin1 n) = isspace u n"
  by (auto simp: lower_latin1_def isupper_def isspace_def)

lemma kept_lower_latin1: "kept u n \<Longrightarrow> kept u (lower_latin1 n)"
proof (cases "isupper n")
  case True
  then show ?thesis by (simp add: kept_def isword_def isalnum_lower_latin1)
next
  case False
  assume "kept u n"
  with False show ?thesis by (simp add: lower_latin1_same)
qed

lemma set_sub_whitespace_runs:
  "c \<in> set (sub_whitespace_runs u t) \<Longrightarrow> (c \<in> set t \<and> \<not> isspace u c) \<or> c = 32"
  by (induction u t rule: sub_whitespace_runs.induct)
     (auto split: if_splits dest: set_dropWhileD)

lemma set_sub_special:
  "c \<in> set (sub_special u x) \<Longrightarrow> (c \<in> set x \<and> kept u c) \<or> c = 32"
  by (auto simp: sub_special_def split: if_splits)

lemma set_lower_from:
  "d \<in> set (lower_from u left s) \<Longrightarrow>
     \<exists>c \<in> set s. (c < 256 \<and> d = lower_latin1 c)
                \<or> (256 \<le> c \<and> (\<exists>l r. d \<in> set (ucd_lower u l c r)))"
proof (induction s arbitrary: left)
  case Nil
  then show ?case by simp
next
  case (Cons c s)
  from Cons.prems consider
    (head) "d \<in> set (if c < 256 then [lower_latin1 c] else ucd_lower u left c s)"
    | (tail) "d \<in> set (lower_from u (left @ [c]) s)"
    by auto
  then show ?case
  proof cases
    case head
    then show ?thesis by (cases "c < 256") auto
  next
    case tail
    from Cons.IH [OF this] show ?thesis by auto
  qed
qed

lemma set_strip: "set (strip u s) \<subseteq> set s"
  by (auto simp: strip_def dest!: set_dropWhileD)

lemma clean_Text:
  "clean u (Text t) = Inr (strip u (lower u (sub_special u (sub_whitespace_runs u t))))"
  by (simp add: clean_def)

text \<open>Where a character of the cleaner's output comes from.\<close>

lemma clean_char_origin:
  assumes "clean u (Text t) = Inr s" and "d \<in> set s"
  obtains (space) "d = 32"
  | (latin1) c where "c \<in> set t" "kept u c" "c < 256" "d = lower_latin1 c"
  | (beyond) c l r where "c \<in> set t" "ucd_isalnum u c" "256 \<le> c" "d \<in> set (ucd_lower u l c r)"
proof -
  from assms have "d \<in> set (lower_from u [] (sub_special u (sub_whitespace_runs u t)))"
    using set_strip by (auto simp: clean_Text lower_def)
  from set_lower_from [OF this] obtain c where
    c: "c \<in> set (sub_special u (sub_whitespace_runs u t))"
    and d: "(c < 256 \<and> d = lower_latin1 c) \<or> (256 \<le> c \<and> (\<exists>l r. d \<in> set (ucd_lower u l c r)))"
    by blast
  from set_sub_special [OF c] show ?thesis
  proof
    assume "c = 32"
    with d have "d = 32" by (simp add: lower_latin1_32)
    then show ?thesis by (rule space)
  next
    assume k: "c \<in> set (sub_whitespace_runs u t) \<and> kept u c"
    then have "(c \<in> set t \<and> \<not> isspace u c) \<or> c = 32"
      using set_sub_whitespace_runs by blast
    then show ?thesis
    proof
      assume "c = 32"
      with d have "d = 32" by (simp add: lower_latin1_32)
      then show ?thesis by (rule space)
    next
      assume t: "c \<in> set t \<and> \<not> isspace u c"
      show ?thesis
      proof (cases "c < 256")
        case True
        with d t k show ?thesis by (auto intro: latin1)
      next
        case False
        with k t have "ucd_isalnum u c"
          by (auto simp: kept_def isword_def isalnum_def)
        with d t False show ?thesis by (auto intro: beyond)
      qed
    qed
  qed
qed

lemma lower_keeps_alnum_sample: "lower_keeps_alnum sample_ucd"
  by (auto simp: lower_keeps_alnum_def sample_ucd_def isalnum_def)

text \<open>
  C6, as stated: every character of the cleaner's output is alphanumeric, whitespace, or
  one of \<open>. , ? !\<close>. The class \<open>\w\<close> of the pattern holds the underscore as
  well, so an underscore stays. And \<open>lower\<close> runs after the characters have been
  filtered: with Python's entry for U+0130, the capital I with a dot above, its lowercase
  brings the combining dot U+0307, which is none of these characters.
\<close>

theorem clean_charset_counterexample:
  "clean sample_ucd (Text (py ''a_b'')) = Inr (py ''a_b'')
   \<and> \<not> list_all (spec_allowed sample_ucd) (py ''a_b'')
   \<and> clean sample_ucd (Text [0x130]) = Inr [0x69, 0x307]
   \<and> \<not> list_all (spec_allowed sample_ucd) [0x69, 0x307]
   \<and> 0x307 \<noteq> (of_char CHR ''_'' :: nat)"
  by (simp add: clean_underscore clean_dotted_capital_I)
     (simp add: py_def spec_allowed_def char_classes sample_ucd_def)

text \<open>
  C6, amended: for every input string without U+0130, the capital I with a dot above,
  every character of the cleaner's output is alphanumeric, an underscore, whitespace, or
  one of \<open>. , ? !\<close>. The tables are any that satisfy \<open>lower_keeps_alnum\<close>.
\<close>

theorem clean_charset:
  assumes "lower_keeps_alnum u" and "0x130 \<notin> set t"
  shows "\<exists>s. clean u (Text t) = Inr s
            \<and> (\<forall>c \<in> set s.
                  isalnum u c \<or> c = of_char CHR ''_'' \<or> isspace u c
                  \<or> c = of_char CHR ''.'' \<or> c = of_char CHR '',''
                  \<or> c = of_char CHR ''?'' \<or> c = of_char CHR ''!'')"
proof -
  obtain s where s: "clean u (Text t) = Inr s" by (simp add: clean_Text)
  have "kept u d" if "d \<in> set s" for d
    using s that
  proof (cases rule: clean_char_origin)
    case space
    then show ?thesis by (simp add: kept_def isspace_32)
  next
    case (latin1 c)
    then show ?thesis by (simp add: kept_lower_latin1)
  next
    case (beyond c l r)
    with assms have "isalnum u d"
      unfolding lower_keeps_alnum_def by (metis)
    then show ?thesis by (simp add: kept_def isword_def)
  qed
  then have "\<forall>c \<in> set s.
                  isalnum u c \<or> c = of_char CHR ''_'' \<or> isspace u c
                  \<or> c = of_char CHR ''.'' \<or> c = of_char CHR '',''
                  \<or> c = of_char CHR ''?'' \<or> c = of_char CHR ''!''"
    by (auto simp: kept_def isword_def)
  with s show ?thesis by blast
qed

theorem clean_charset_witness:
  "lower_keeps_alnum sample_ucd
   \<and> 0x130 \<notin> set ([0x41F, 0x440, 0x2003, 0x2003, 0x2014] @ py ''Hi!'')
   \<and> clean sample_ucd (Text ([0x41F, 0x440, 0x2003, 0x2003, 0x2014] @ py ''Hi!''))
       = Inr ([0x43F, 0x440] @ py ''  hi!'')
   \<and> isalnum sample_ucd 0x43F"
proof -
  have n: "0x130 \<notin> set ([0x41F, 0x440, 0x2003, 0x2003, 0x2014] @ py ''Hi!'')"
    by (simp add: py_def)
  from clean_charset [OF lower_keeps_alnum_sample n] clean_cyrillic
  have "\<forall>c \<in> set ([0x43F, 0x440] @ py ''  hi!'').
          isalnum sample_ucd c \<or> c = of_char CHR ''_'' \<or> isspace sample_ucd c
          \<or> c = of_char CHR ''.'' \<or> c = of_char CHR '',''
          \<or> c = of_char CHR ''?'' \<or> c = of_char CHR ''!''"
    by simp
  then have "isalnum sample_ucd 0x43F \<or> 0x43F = (95::nat) \<or> isspace sample_ucd 0x43F"
    by (simp add: py_def)
  then have "isalnum sample_ucd 0x43F"
    by (simp add: isspace_def sample_ucd_def)
  with lower_keeps_alnum_sample n clean_cyrillic show ?thesis by blast
qed

text \<open>
  What holds of C7. The output neither starts nor ends with whitespace. For an input of
  code points below 256, it has no character that \<open>lower\<close> would change, and its
  only whitespace character is the space.
\<close>

lemma strip_ends:
  assumes "strip u s \<noteq> []"
  shows "\<not> isspace u (hd (strip u s))" and "\<not> isspace u (last (strip u s))"
proof -
  let ?v = "dropWhile (isspace u) s"
  let ?w = "dropWhile (isspace u) (rev ?v)"
  from assms have w: "?w \<noteq> []" by (simp add: strip_def)
  then have v: "?v \<noteq> []" by (cases "?v") simp_all
  have "last (strip u s) = hd ?w" using w by (simp add: strip_def last_rev)
  then show "\<not> isspace u (last (strip u s))" using w by (simp add: hd_dropWhile)
  have "?w = drop (length (takeWhile (isspace u) (rev ?v))) (rev ?v)"
    by (rule dropWhile_eq_drop)
  then have "last ?w = last (rev ?v)" using w by (metis drop_eq_Nil last_drop not_le)
  then have "hd (strip u s) = hd ?v" using w v by (simp add: strip_def hd_rev last_rev)
  then show "\<not> isspace u (hd (strip u s))" using v by (simp add: hd_dropWhile)
qed

lemma clean_ends:
  "clean u (Text t) = Inr s \<Longrightarrow> s \<noteq> [] \<Longrightarrow> \<not> isspace u (hd s) \<and> \<not> isspace u (last s)"
  by (auto simp: clean_Text strip_ends)

lemma clean_latin1_no_upper:
  assumes "clean u (Text t) = Inr s" and "\<forall>c \<in> set t. c < 256" and "d \<in> set s"
  shows "d < 256 \<and> \<not> isupper d"
  using assms(1,3)
proof (cases rule: clean_char_origin)
  case space
  then show ?thesis by (simp add: isupper_def)
next
  case (latin1 c)
  then show ?thesis by (simp add: lower_latin1_less not_isupper_lower_latin1)
next
  case (beyond c l r)
  with assms(2) show ?thesis by auto
qed

lemma clean_latin1_whitespace_is_space:
  assumes "clean u (Text t) = Inr s" and "\<forall>c \<in> set t. c < 256" and "d \<in> set s"
    and "isspace u d"
  shows "d = 32"
proof -
  from assms(1,3) have "d \<in> set (lower_from u [] (sub_special u (sub_whitespace_runs u t)))"
    using set_strip by (auto simp: clean_Text lower_def)
  from set_lower_from [OF this] obtain c where
    c: "c \<in> set (sub_special u (sub_whitespace_runs u t))"
    and d: "(c < 256 \<and> d = lower_latin1 c) \<or> (256 \<le> c \<and> (\<exists>l r. d \<in> set (ucd_lower u l c r)))"
    by blast
  from set_sub_special [OF c] set_sub_whitespace_runs [of c u t]
  have o: "c = 32 \<or> (c \<in> set t \<and> \<not> isspace u c)" by auto
  with assms(2) have lt: "c < 256" by auto
  with d have dl: "d = lower_latin1 c" by auto
  with assms(4) lt have "isspace u c" by (simp add: isspace_lower_latin1)
  with o have "c = 32" by auto
  with dl show ?thesis by (simp add: lower_latin1_32)
qed

text \<open>
  C7: the cleaner's output is lowercase, has no whitespace at either end, and has no run
  of two or more whitespace characters. The last part fails on \<open>rock & roll\<close>: the
  whitespace is collapsed first, and the ampersand is turned into a space afterwards,
  between the two spaces that were there; the output has three spaces in a row.
\<close>

theorem clean_leaves_space_run:
  "clean u (Text (py ''rock & roll'')) = Inr (py ''rock   roll'')
   \<and> has_whitespace_run u (py ''rock   roll'')"
  by (simp add: clean_ampersand) (simp add: py_def isspace_def)

section \<open>The chunker: properties\<close>

lemma step_450:
  "i < n \<Longrightarrow> Suc ((n - (i + 450) + 449) div 450) = (n - i + 449) div (450::nat)"
proof (cases "n - i < 450")
  case True
  assume "i < n"
  with True have "n - (i + 450) = 0" "450 \<le> n - i + 449" "n - i + 449 < 900" by simp_all
  then show ?thesis by (simp add: div_nat_eqI)
next
  case False
  then obtain k where k: "n - i = k + 450" by (metis add.commute le_add_diff_inverse not_less)
  then have "n - (i + 450) = k" by simp
  then show ?thesis using k by simp
qed

lemma length_chunks_from:
  "length (chunks_from i ws) = (length ws - i + 449) div 450"
proof (induction i ws rule: chunks_from.induct)
  case (1 i ws)
  show ?case
  proof (cases "i < length ws")
    case True
    then have "length (chunks_from i ws) = Suc (length (chunks_from (i + 450) ws))"
      by (subst chunks_from.simps) (simp add: chunk_size_def overlap_def)
    also have "\<dots> = Suc ((length ws - (i + 450) + 449) div 450)"
      using 1 True by (simp add: chunk_size_def overlap_def)
    also have "\<dots> = (length ws - i + 449) div 450"
      using True by (rule step_450)
    finally show ?thesis .
  next
    case False
    then show ?thesis by (subst chunks_from.simps) simp
  qed
qed

lemma length_chunking: "length (chunking u t) = (length (split u t) + 449) div 450"
  by (simp add: chunking_def length_chunks_from)

lemma ceiling_450: "\<lceil>real n / 450\<rceil> = int ((n + 449) div 450)"
proof -
  define q where "q = (n + 449) div 450"
  have "n + 449 = 450 * q + (n + 449) mod 450"
    unfolding q_def by simp
  moreover have "(n + 449) mod 450 < 450" by simp
  ultimately have lo: "450 * q \<le> n + 449" and hi: "n \<le> 450 * q" by linarith+
  have "real (450 * q) \<le> real (n + 449)" using lo by (simp only: of_nat_le_iff)
  then have 1: "real q - 1 < real n / 450" by simp
  have "real n \<le> real (450 * q)" using hi by (simp only: of_nat_le_iff)
  then have 2: "real n / 450 \<le> real q" by simp
  have "\<lceil>real n / 450\<rceil> = int q"
    by (rule ceiling_unique) (use 1 2 in simp_all)
  then show ?thesis by (simp add: q_def)
qed

lemma split_Nil: "split u [] = []"
  by (simp add: split_def)

lemma split_repeated_word: "split u (repeated_word n) = replicate n (py ''a'')"
  by (induction n) (simp_all add: split_def repeated_word_def isspace_def py_def)

lemma chunks_from_beyond: "length ws \<le> i \<Longrightarrow> chunks_from i ws = []"
  by (subst chunks_from.simps) simp

lemma chunking_no_words: "split u t = [] \<Longrightarrow> chunking u t = []"
  by (simp add: chunking_def chunks_from_beyond)

lemma chunking_nonempty: "split u t \<noteq> [] \<Longrightarrow> chunking u t \<noteq> []"
proof -
  assume "split u t \<noteq> []"
  then have "450 \<le> length (split u t) + 449" by (cases "split u t") simp_all
  then have "0 < length (chunking u t)"
    by (simp only: length_chunking div_greater_zero_iff) simp
  then show ?thesis by simp
qed

lemma chunking_up_to_450:
  assumes "split u t \<noteq> []" "length (split u t) \<le> 450"
  shows "chunking u t = [join (py '' '') (split u t)]"
proof -
  have "chunking u t
          = join (py '' '') (take 500 (drop 0 (split u t))) # chunks_from 450 (split u t)"
    unfolding chunking_def using assms(1)
    by (subst chunks_from.simps) (simp add: chunk_size_def overlap_def)
  then show ?thesis using assms(2) by (simp add: chunks_from_beyond)
qed

lemma chunking_451_to_900:
  assumes "450 < length (split u t)" "length (split u t) \<le> 900"
  shows "chunking u t =
           [join (py '' '') (take 500 (split u t)), join (py '' '') (drop 450 (split u t))]"
proof -
  have "chunking u t
          = join (py '' '') (take 500 (drop 0 (split u t))) # chunks_from 450 (split u t)"
    unfolding chunking_def using assms(1)
    by (subst chunks_from.simps) (auto simp add: chunk_size_def overlap_def)
  moreover have "chunks_from 450 (split u t) =
      join (py '' '') (take 500 (drop 450 (split u t))) # chunks_from 900 (split u t)"
    using assms(1) by (subst chunks_from.simps) (simp add: chunk_size_def overlap_def)
  moreover have "take 500 (drop 450 (split u t)) = drop 450 (split u t)"
    using assms(2) by simp
  ultimately show ?thesis using assms(2) by (simp add: chunks_from_beyond)
qed

text \<open>
  C4, as stated: the number of chunks is \<open>ceil((wordCount - 50) / 450)\<close> when
  \<open>wordCount > 500\<close>, and 1 otherwise. The loop starts a chunk at every multiple of
  450 below the word count: 451 words give two chunks where the formula gives 1, 901
  words give three where it gives 2, and a text without words gives none.
\<close>

theorem chunk_count_counterexample:
  "int (length (chunking sample_ucd (repeated_word 451)))
     \<noteq> spec_chunk_count (length (split sample_ucd (repeated_word 451)))
   \<and> length (split sample_ucd (repeated_word 451)) = 451
   \<and> length (chunking sample_ucd (repeated_word 451)) = 2
   \<and> spec_chunk_count 451 = 1
   \<and> length (split sample_ucd (repeated_word 901)) = 901
   \<and> length (chunking sample_ucd (repeated_word 901)) = 3
   \<and> spec_chunk_count 901 = 2
   \<and> length (split sample_ucd []) = 0
   \<and> length (chunking sample_ucd []) = 0
   \<and> spec_chunk_count 0 = 1"
  by (simp add: length_chunking split_repeated_word spec_chunk_count_def split_Nil)

text \<open>
  C4, amended: for every text, the number of chunks is \<open>ceil(wordCount / 450)\<close>,
  where \<open>wordCount\<close> is the number of its words.
\<close>

theorem chunk_count_ceiling:
  "int (length (chunking u t)) = \<lceil>real (length (split u t)) / 450\<rceil>"
  by (simp only: length_chunking ceiling_450)

text \<open>
  C5, as stated: the chunker's result is never empty, and a text of fewer than 500 words
  gives exactly one chunk, all its words joined by single spaces. The empty string gives
  no chunk, and a text of 451 words gives two.
\<close>

theorem chunking_nonempty_counterexample:
  "chunking sample_ucd [] = []
   \<and> length (split sample_ucd (repeated_word 451)) < 500
   \<and> chunking sample_ucd (repeated_word 451)
       \<noteq> [join (py '' '') (split sample_ucd (repeated_word 451))]"
proof -
  have "length (chunking sample_ucd (repeated_word 451)) = 2"
    by (simp add: length_chunking split_repeated_word)
  then have "chunking sample_ucd (repeated_word 451)
               \<noteq> [join (py '' '') (split sample_ucd (repeated_word 451))]"
    by auto
  then show ?thesis
    by (simp add: chunking_no_words split_repeated_word split_Nil)
qed

text \<open>
  C5, amended: a text without words gives no chunk and every other text gives at least
  one; a text of 1 to 450 words gives exactly one chunk, all its words joined by single
  spaces; a text of 451 to 499 words gives that chunk and a second one, the words from
  the 451st on.
\<close>

theorem chunking_small_inputs:
  "(split u t = [] \<longrightarrow> chunking u t = [])
   \<and> (split u t \<noteq> [] \<longrightarrow> chunking u t \<noteq> [])
   \<and> (1 \<le> length (split u t) \<and> length (split u t) \<le> 450 \<longrightarrow>
        chunking u t = [join (py '' '') (split u t)])
   \<and> (450 < length (split u t) \<and> length (split u t) < 500 \<longrightarrow>
        chunking u t
          = [join (py '' '') (split u t), join (py '' '') (drop 450 (split u t))])"
proof -
  have "1 \<le> length (split u t) \<and> length (split u t) \<le> 450 \<Longrightarrow>
          chunking u t = [join (py '' '') (split u t)]"
    using chunking_up_to_450 [of u t] by (cases "split u t") simp_all
  moreover have "450 < length (split u t) \<and> length (split u t) < 500 \<Longrightarrow>
        chunking u t
          = [join (py '' '') (split u t), join (py '' '') (drop 450 (split u t))]"
    using chunking_451_to_900 [of u t] by simp
  ultimately show ?thesis
    using chunking_no_words [of u t] chunking_nonempty [of u t] by blast
qed

theorem chunking_small_inputs_witness:
  "split sample_ucd (py ''a b  c'') \<noteq> []
   \<and> chunking sample_ucd (py ''a b  c'') \<noteq> []
   \<and> 1 \<le> length (split sample_ucd (py ''a b  c''))
   \<and> length (split sample_ucd (py ''a b  c'')) \<le> 450
   \<and> chunking sample_ucd (py ''a b  c'') = [py ''a b c'']"
proof -
  have s: "split sample_ucd (py ''a b  c'') = [py ''a'', py ''b'', py ''c'']"
    by (simp add: split_def isspace_def py_def)
  show ?thesis using chunking_small_inputs [of sample_ucd "py ''a b  c''"]
    by (simp add: s) (simp add: py_def)
qed

section \<open>The dataset preprocessor: properties\<close>

lemma split_from_nonempty: "w \<noteq> [] \<Longrightarrow> split_from u w s \<noteq> []"
  by (induction s arbitrary: w) simp_all

lemma split_format_data: "split u (format_data c r) \<noteq> []"
  by (simp add: split_def format_data_def isspace_def py_def split_from_nonempty)

lemma chunking_format_data: "chunking u (format_data c r) \<noteq> []"
  by (rule chunking_nonempty) (rule split_format_data)

lemma clean_text_or_missing: "text_or_missing x \<Longrightarrow> \<exists>c. clean u x = Inr c"
  by (cases x) (simp_all add: text_or_missing_def clean_def)

lemma clean_Inr_text_or_missing: "clean u x = Inr c \<Longrightarrow> text_or_missing x"
  by (cases x) (simp_all add: text_or_missing_def clean_def)

lemma append_chunks_eq:
  "append_chunks docs c r orig chunks =
     docs @ map (\<lambda>(k, chunk).
                   \<lparr>doc_context = c, response = r, data = chunk,
                    metadata = \<lparr>original_context = orig, md_response = k\<rparr>\<rparr>)
                (enumerate (length docs) chunks)"
  by (induction chunks arbitrary: docs) simp_all

lemma process_row_present:
  "row ''Context'' = Some rc \<Longrightarrow> clean u rc = Inr c \<Longrightarrow>
   row ''Response'' = Some rr \<Longrightarrow> clean u rr = Inr r \<Longrightarrow>
     process_row u docs row = Inr (docs @ row_documents u (length docs) rc c r)"
  by (simp add: process_row_def getitem_def append_chunks_eq row_documents_def)

lemma process_row_Inr:
  assumes "process_row u docs row = Inr docs'"
  obtains rc rr c r where "row ''Context'' = Some rc" "clean u rc = Inr c"
    "row ''Response'' = Some rr" "clean u rr = Inr r"
    "docs' = docs @ row_documents u (length docs) rc c r"
proof -
  from assms obtain rc where rc: "row ''Context'' = Some rc"
    by (cases "row ''Context''") (simp_all add: process_row_def getitem_def)
  from assms rc obtain c where c: "clean u rc = Inr c"
    by (cases "clean u rc") (simp_all add: process_row_def getitem_def)
  from assms rc c obtain rr where rr: "row ''Response'' = Some rr"
    by (cases "row ''Response''") (simp_all add: process_row_def getitem_def)
  from assms rc c rr obtain r where r: "clean u rr = Inr r"
    by (cases "clean u rr") (simp_all add: process_row_def getitem_def)
  from assms process_row_present [OF rc c rr r, of docs]
  have "docs' = docs @ row_documents u (length docs) rc c r" by simp
  with rc c rr r that show ?thesis by blast
qed

lemma row_documents_nonempty: "row_documents u n rc c r \<noteq> []"
proof -
  have "length (row_documents u n rc c r) = length (chunking u (format_data c r))"
    by (simp add: row_documents_def)
  then show ?thesis using chunking_format_data [of u c r] by auto
qed

lemma data_row_documents:
  "map data (row_documents u n rc c r) = chunking u (format_data c r)"
proof -
  have "map data (row_documents u n rc c r)
          = map snd (enumerate n (chunking u (format_data c r)))"
    unfolding row_documents_def map_map by (rule map_cong) auto
  then show ?thesis by simp
qed

lemma counts_row_documents:
  "map (\<lambda>d. md_response (metadata d)) (row_documents u n rc c r)
     = [n ..< n + length (row_documents u n rc c r)]"
proof -
  have "map (\<lambda>d. md_response (metadata d)) (row_documents u n rc c r)
          = map fst (enumerate n (chunking u (format_data c r)))"
    unfolding row_documents_def map_map by (rule map_cong) auto
  then show ?thesis by (simp add: row_documents_def)
qed

lemma origin_row_documents:
  "list_all (\<lambda>d. original_context (metadata d) = rc) (row_documents u n rc c r)"
  by (auto simp: row_documents_def list_all_iff)

lemma emitted_for_row_documents:
  "row ''Context'' = Some rc \<Longrightarrow> clean u rc = Inr c \<Longrightarrow>
   row ''Response'' = Some rr \<Longrightarrow> clean u rr = Inr r \<Longrightarrow>
     emitted_for u row (row_documents u n rc c r)"
  by (simp add: emitted_for_def data_row_documents origin_row_documents)

lemma preprocess_rows_groups:
  "preprocess_rows u docs df = Inr out \<Longrightarrow>
     \<exists>groups. out = docs @ concat groups \<and> list_all2 (emitted_for u) df groups"
proof (induction df arbitrary: docs)
  case Nil
  then show ?case by simp
next
  case (Cons row df)
  from Cons.prems obtain docs' where step: "process_row u docs row = Inr docs'"
    and rest: "preprocess_rows u docs' df = Inr out"
    by (cases "process_row u docs row") simp_all
  from step obtain rc rr c r where rc: "row ''Context'' = Some rc"
    and c: "clean u rc = Inr c"
    and rr: "row ''Response'' = Some rr"
    and r: "clean u rr = Inr r"
    and docs': "docs' = docs @ row_documents u (length docs) rc c r"
    by (rule process_row_Inr)
  from Cons.IH [OF rest] obtain groups where
    "out = docs' @ concat groups" "list_all2 (emitted_for u) df groups" by blast
  with docs' emitted_for_row_documents [OF rc c rr r, of "length docs"]
  have "out = docs @ concat (row_documents u (length docs) rc c r # groups)
        \<and> list_all2 (emitted_for u) (row # df)
             (row_documents u (length docs) rc c r # groups)"
    by simp
  then show ?case by blast
qed

lemma preprocess_rows_counts:
  "map (\<lambda>d. md_response (metadata d)) docs = [0 ..< length docs] \<Longrightarrow>
   preprocess_rows u docs df = Inr out \<Longrightarrow>
     map (\<lambda>d. md_response (metadata d)) out = [0 ..< length out]"
proof (induction df arbitrary: docs)
  case Nil
  then show ?case by simp
next
  case (Cons row df)
  from Cons.prems(2) obtain docs' where step: "process_row u docs row = Inr docs'"
    and rest: "preprocess_rows u docs' df = Inr out"
    by (cases "process_row u docs row") simp_all
  from step obtain rc rr c r where
    docs': "docs' = docs @ row_documents u (length docs) rc c r"
    by (rule process_row_Inr)
  have "[0 ..< length docs + length (row_documents u (length docs) rc c r)]
          = [0 ..< length docs]
            @ [length docs ..< length docs + length (row_documents u (length docs) rc c r)]"
    by (rule upt_add_eq_append) simp
  then have "map (\<lambda>d. md_response (metadata d)) docs' = [0 ..< length docs']"
    unfolding docs' using Cons.prems(1)
    by (simp add: counts_row_documents)
  from Cons.IH [OF this rest] show ?case .
qed

lemma preprocess_rows_append:
  "preprocess_rows u docs (xs @ ys) =
     (case preprocess_rows u docs xs of
        Inl e \<Rightarrow> Inl e
      | Inr d \<Rightarrow> preprocess_rows u d ys)"
  by (induction xs arbitrary: docs) (simp_all split: sum.splits)

text \<open>
  C8: in the documents that the preprocessor returns, the document at position \<open>i\<close>
  carries the count \<open>i\<close>, the number of documents emitted before it; and the
  documents are, row after row, the ones emitted for that row, each carrying in its
  metadata the row's context cell as it was before cleaning.
\<close>

theorem preprocess_metadata:
  "preprocess u (Inr df) = Inr docs \<Longrightarrow>
     map (\<lambda>d. md_response (metadata d)) docs = [0 ..< length docs]
     \<and> (\<exists>groups. docs = concat groups \<and> list_all2 (emitted_for u) df groups)"
  using preprocess_rows_counts [of "[]" u df docs] preprocess_rows_groups [of u "[]" df docs]
  by (simp add: preprocess_def)

theorem preprocess_metadata_witness:
  "preprocess sample_ucd (Inr [anxious_row, missing_context_row]) = Inr two_row_documents
   \<and> map (\<lambda>d. md_response (metadata d)) two_row_documents = [0 ..< length two_row_documents]
   \<and> (\<exists>groups. two_row_documents = concat groups
         \<and> list_all2 (emitted_for sample_ucd) [anxious_row, missing_context_row] groups)"
  using preprocess_metadata [OF preprocess_two_rows [of sample_ucd]]
    preprocess_two_rows [of sample_ucd]
  by simp

text \<open>
  C9, as stated: every row that has the columns \<open>Context\<close> and \<open>Response\<close>
  gives at least one document. A cell that is a number is not missing, so the cleaner
  passes it to \<open>re.sub\<close>, which raises \<open>TypeError\<close>: the run ends there and
  returns no document at all.
\<close>

theorem numeric_cell_counterexample:
  "number_row ''Context'' = Some (Number 7)
   \<and> number_row ''Response'' = Some (Text (py ''Seven''))
   \<and> preprocess sample_ucd (Inr [number_row]) = Inl TypeError"
  by (simp add: number_row_def preprocess_def process_row_def getitem_def clean_def)

text \<open>
  C9, amended: a row whose cells \<open>Context\<close> and \<open>Response\<close> are each text or
  missing does not fail, and the preprocessor emits at least one document for it, as
  many as its text has chunks: after the rows before it have given the documents
  \<open>earlier\<close>, the row appends a non-empty list \<open>new\<close>, and whatever rows
  follow, the result starts with \<open>earlier @ new\<close>.
\<close>

theorem preprocess_row_emits:
  assumes "row ''Context'' = Some rc" and "row ''Response'' = Some rr"
    and "text_or_missing rc" and "text_or_missing rr"
    and "preprocess u (Inr pre) = Inr earlier"
  shows "\<exists>new c r. new \<noteq> []
           \<and> clean u rc = Inr c \<and> clean u rr = Inr r
           \<and> length new = length (chunking u (format_data c r))
           \<and> preprocess u (Inr (pre @ [row])) = Inr (earlier @ new)
           \<and> (\<forall>post out. preprocess u (Inr (pre @ row # post)) = Inr out \<longrightarrow>
                 (\<exists>later. out = earlier @ new @ later))"
proof -
  from assms(3) obtain c where c: "clean u rc = Inr c"
    using clean_text_or_missing by blast
  from assms(4) obtain r where r: "clean u rr = Inr r"
    using clean_text_or_missing by blast
  let ?new = "row_documents u (length earlier) rc c r"
  have pre: "preprocess_rows u [] pre = Inr earlier"
    using assms(5) by (simp add: preprocess_def)
  have step: "process_row u earlier row = Inr (earlier @ ?new)"
    using assms(1) c assms(2) r by (rule process_row_present)
  have "preprocess u (Inr (pre @ [row])) = Inr (earlier @ ?new)"
    by (simp add: preprocess_def preprocess_rows_append pre step)
  moreover have "\<exists>later. out = earlier @ ?new @ later"
    if "preprocess u (Inr (pre @ row # post)) = Inr out" for post out
  proof -
    from that have "preprocess_rows u (earlier @ ?new) post = Inr out"
      by (simp add: preprocess_def preprocess_rows_append pre step)
    from preprocess_rows_groups [OF this] show ?thesis by auto
  qed
  moreover have "length ?new = length (chunking u (format_data c r))"
    by (simp add: row_documents_def)
  ultimately show ?thesis
    using row_documents_nonempty [of u "length earlier" rc c r] c r by blast
qed

theorem preprocess_row_emits_witness:
  "anxious_row ''Context'' = Some (Text (py ''I feel anxious''))
   \<and> anxious_row ''Response''
       = Some (Text (py ''That's understandable, let's talk about it''))
   \<and> text_or_missing (Text (py ''I feel anxious''))
   \<and> text_or_missing (Text (py ''That's understandable, let's talk about it''))
   \<and> preprocess sample_ucd (Inr []) = Inr []
   \<and> (\<exists>new. new \<noteq> [] \<and> preprocess sample_ucd (Inr [anxious_row]) = Inr new)"
proof -
  have c: "anxious_row ''Context'' = Some (Text (py ''I feel anxious''))"
    and r: "anxious_row ''Response''
              = Some (Text (py ''That's understandable, let's talk about it''))"
    by (simp_all add: anxious_row_def)
  have tc: "text_or_missing (Text (py ''I feel anxious''))"
    and tr: "text_or_missing (Text (py ''That's understandable, let's talk about it''))"
    by (simp_all add: text_or_missing_def)
  have p: "preprocess sample_ucd (Inr []) = Inr []" by (simp add: preprocess_def)
  from preprocess_row_emits [OF c r tc tr p] obtain new where
    "new \<noteq> []" "preprocess sample_ucd (Inr ([] @ [anxious_row])) = Inr ([] @ new)"
    by blast
  with c r tc tr p show ?thesis by auto
qed

end
